theory Spec2Isabelle
  imports Main "HOL-Library.Char_ord" "HOL-Library.List_Lexorder" "HOL-Library.AList"
    "HOL-Library.Multiset"
begin

section \<open>Go strings\<close>

text \<open>
  A Go string is a sequence of bytes; \<^typ>\<open>string\<close> is a list of 8-bit characters, so
  an index into a Go string is an index into the list and \<open>s[i:]\<close> is \<open>drop i s\<close>.
  With \<open>Char_ord\<close> and \<open>List_Lexorder\<close> the order on \<^typ>\<open>string\<close> is the bytewise
  lexicographic order of Go's \<open><\<close> on strings.
  The functions of package \<open>strings\<close> that the generator calls are written out below;
  a result of \<open>-1\<close> is \<open>None\<close>.
\<close>

definition HasPrefix :: "string \<Rightarrow> string \<Rightarrow> bool" where
  "HasPrefix s p = (length p \<le> length s \<and> take (length p) s = p)"

definition HasSuffix :: "string \<Rightarrow> string \<Rightarrow> bool" where
  "HasSuffix s suf = (length suf \<le> length s \<and> drop (length s - length suf) s = suf)"

definition TrimSuffix :: "string \<Rightarrow> string \<Rightarrow> string" where
  "TrimSuffix s suf = (if HasSuffix s suf then take (length s - length suf) s else s)"

fun IndexByte :: "string \<Rightarrow> char \<Rightarrow> nat option" where
  "IndexByte [] c = None"
| "IndexByte (x # xs) c = (if x = c then Some 0 else map_option Suc (IndexByte xs c))"

fun LastIndexByte :: "string \<Rightarrow> char \<Rightarrow> nat option" where
  "LastIndexByte [] c = None"
| "LastIndexByte (x # xs) c =
     (case LastIndexByte xs c of
        Some i \<Rightarrow> Some (Suc i)
      | None \<Rightarrow> if x = c then Some 0 else None)"

fun LastIndex :: "string \<Rightarrow> string \<Rightarrow> nat option" where
  "LastIndex [] sep = (if sep = [] then Some 0 else None)"
| "LastIndex (x # xs) sep =
     (case LastIndex xs sep of
        Some i \<Rightarrow> Some (Suc i)
      | None \<Rightarrow> if HasPrefix (x # xs) sep then Some 0 else None)"

text \<open>
  \<open>strings.Replace(s, old, new, -1)\<close> is only called with \<open>old\<close> and \<open>new\<close> of one byte
  each (\<open>"/"\<close>, \<open>"."\<close> and \<open>"_"\<close>); every occurrence of the byte is replaced.
\<close>

definition Replace :: "string \<Rightarrow> char \<Rightarrow> char \<Rightarrow> string" where
  "Replace s old new = map (\<lambda>c. if c = old then new else c) s"

section \<open>Runes\<close>

text \<open>
  \<open>strings.LastIndexFunc\<close> does not read bytes: it decodes the string as UTF-8, from
  the end, with \<open>utf8.DecodeLastRuneInString\<close>, and returns the byte index at which the
  rune starts. A rune is a code point, a natural number here; an invalid encoding
  decodes to \<open>RuneError\<close> with width 1. The decoder follows package \<open>unicode/utf8\<close>:
  the table \<open>first\<close> classifies a leading byte (its low three bits are the length of
  the sequence, its high four bits the index of the range accepted for the second
  byte).
\<close>

definition byte :: "char \<Rightarrow> nat" where
  "byte c = of_char c"

definition RuneError :: nat where
  "RuneError = 0xFFFD"

definition RuneSelf :: nat where
  "RuneSelf = 0x80"

definition UTFMax :: nat where
  "UTFMax = 4"

definition first :: "nat \<Rightarrow> nat" where
  "first b =
     (if b < 0x80 then 0xF0
      else if b < 0xC2 then 0xF1
      else if b < 0xE0 then 0x02
      else if b = 0xE0 then 0x13
      else if b < 0xED then 0x03
      else if b = 0xED then 0x23
      else if b < 0xF0 then 0x03
      else if b = 0xF0 then 0x34
      else if b < 0xF4 then 0x04
      else if b = 0xF4 then 0x44
      else 0xF1)"

definition acceptRanges :: "nat \<Rightarrow> nat \<times> nat" where
  "acceptRanges k =
     (if k = 0 then (0x80, 0xBF)
      else if k = 1 then (0xA0, 0xBF)
      else if k = 2 then (0x80, 0x9F)
      else if k = 3 then (0x90, 0xBF)
      else if k = 4 then (0x80, 0x8F)
      else (0, 0))"

definition DecodeRuneInString :: "string \<Rightarrow> nat \<times> nat" where
  "DecodeRuneInString s =
     (let n = length s in
      if n < 1 then (RuneError, 0)
      else
        let s0 = byte (s ! 0); x = first s0 in
        if 0xF0 \<le> x then (if odd x then RuneError else s0, 1)
        else
          let sz = x mod 8; (lo, hi) = acceptRanges (x div 16) in
          if n < sz then (RuneError, 1)
          else
            let s1 = byte (s ! 1) in
            if s1 < lo \<or> hi < s1 then (RuneError, 1)
            else if sz \<le> 2 then ((s0 mod 32) * 64 + s1 mod 64, 2)
            else
              let s2 = byte (s ! 2) in
              if s2 < 0x80 \<or> 0xBF < s2 then (RuneError, 1)
              else if sz \<le> 3 then ((s0 mod 16) * 4096 + (s1 mod 64) * 64 + s2 mod 64, 3)
              else
                let s3 = byte (s ! 3) in
                if s3 < 0x80 \<or> 0xBF < s3 then (RuneError, 1)
                else ((s0 mod 8) * 262144 + (s1 mod 64) * 4096 + (s2 mod 64) * 64 + s3 mod 64, 4))"

definition RuneStart :: "nat \<Rightarrow> bool" where
  "RuneStart b = (b div 64 \<noteq> 2)"

text \<open>
  The backward scan of \<open>DecodeLastRuneInString\<close> for the start of the last rune:
  \<open>for start--; start >= lim; start-- { if RuneStart(s[start]) { break } }\<close>. The index
  is signed, since it can leave the loop as \<open>-1\<close>; the limit \<open>lim\<close> is never negative, so
  that \<open>s[start]\<close> is read inside the string.
\<close>

function scanRuneStart :: "string \<Rightarrow> int \<Rightarrow> int \<Rightarrow> int" where
  "scanRuneStart s lim start =
     (if lim \<le> start then
        (if RuneStart (byte (s ! nat start)) then start else scanRuneStart s lim (start - 1))
      else start)"
  by pat_completeness auto
termination
  by (relation "measure (\<lambda>(s, lim, start). nat (start - lim + 1))") auto

declare scanRuneStart.simps [simp del]

definition DecodeLastRuneInString :: "string \<Rightarrow> nat \<times> nat" where
  "DecodeLastRuneInString s =
     (let end = length s in
      if end = 0 then (RuneError, 0)
      else
        let r = byte (s ! (end - 1)) in
        if r < RuneSelf then (r, 1)
        else
          let lim = (if int end - int UTFMax < 0 then 0 else int end - int UTFMax);
              start0 = scanRuneStart s lim (int end - 2);
              start = (if start0 < 0 then 0 else nat start0);
              (r, size) = DecodeRuneInString (drop start s)
          in if start + size \<noteq> end then (RuneError, 1) else (r, size))"

lemma scanRuneStart_le: "scanRuneStart s lim start \<le> start"
proof (induction s lim start rule: scanRuneStart.induct)
  case (1 s lim start)
  then show ?case by (subst scanRuneStart.simps) auto
qed

lemma DecodeRuneInString_size: "t \<noteq> [] \<Longrightarrow> 0 < snd (DecodeRuneInString t)"
  by (auto simp: DecodeRuneInString_def Let_def split: prod.splits)

lemma DecodeLastRuneInString_size:
  assumes "s \<noteq> []"
  shows "0 < snd (DecodeLastRuneInString s)"
proof (cases "byte (s ! (length s - 1)) < RuneSelf")
  case True
  with assms show ?thesis by (simp add: DecodeLastRuneInString_def Let_def)
next
  case False
  define lim where "lim = (if int (length s) - int UTFMax < 0 then 0 else int (length s) - int UTFMax)"
  define start0 where "start0 = scanRuneStart s lim (int (length s) - 2)"
  define start where "start = (if start0 < 0 then 0 else nat start0)"
  have "start0 \<le> int (length s) - 2"
    unfolding start0_def by (rule scanRuneStart_le)
  with assms have "start < length s"
    by (cases s) (auto simp: start_def)
  then have "0 < snd (DecodeRuneInString (drop start s))"
    by (intro DecodeRuneInString_size) simp
  moreover have "DecodeLastRuneInString s =
      (if start + snd (DecodeRuneInString (drop start s)) \<noteq> length s then (RuneError, 1)
       else DecodeRuneInString (drop start s))"
    using assms False
    by (simp add: DecodeLastRuneInString_def Let_def lim_def start0_def start_def
          split: prod.splits)
  ultimately show ?thesis by simp
qed

text \<open>
  \<open>lastIndexFunc\<close> walks the string backwards, one rune at a time:
  \<open>for i := len(s); i > 0; { r, size := DecodeLastRuneInString(s[0:i]); i -= size;
  if f(r) { return i } }; return -1\<close>. The loop variable \<open>i\<close> is the length of the
  prefix \<open>s[0:i]\<close> still to be read, which is the argument here.
\<close>

function LastIndexFunc :: "string \<Rightarrow> (nat \<Rightarrow> bool) \<Rightarrow> nat option" where
  "LastIndexFunc s f =
     (if s = [] then None
      else
        let i = length s - snd (DecodeLastRuneInString s) in
        if f (fst (DecodeLastRuneInString s)) then Some i
        else LastIndexFunc (take i s) f)"
  by pat_completeness auto
termination
proof (relation "measure (\<lambda>(s, f). length s)")
  show "wf (measure (\<lambda>(s, f). length s))" by simp
next
  fix s :: string and f :: "nat \<Rightarrow> bool" and i
  assume "s \<noteq> []" and i: "i = length s - snd (DecodeLastRuneInString s)"
  then have "0 < snd (DecodeLastRuneInString s)" by (simp add: DecodeLastRuneInString_size)
  with \<open>s \<noteq> []\<close> i show "((take i s, f), (s, f)) \<in> measure (\<lambda>(s, f). length s)"
    by (cases s) auto
qed

declare LastIndexFunc.simps [simp del]

section \<open>Rule names\<close>

definition notIdent :: "nat \<Rightarrow> bool" where
  "notIdent c =
     (\<not> (byte (CHR ''A'') \<le> c \<and> c \<le> byte (CHR ''Z'') \<or>
         byte (CHR ''a'') \<le> c \<and> c \<le> byte (CHR ''z'') \<or>
         byte (CHR ''0'') \<le> c \<and> c \<le> byte (CHR ''9'') \<or>
         c = byte (CHR ''_'')))"

text \<open>
  The loop of \<open>RuleName\<close> over \<open>names\<close>, with the variable \<open>base\<close> as accumulator; the
  \<open>break\<close> is the branch that returns without reading the rest.
\<close>

fun RuleNameLoop :: "string \<Rightarrow> string list \<Rightarrow> string" where
  "RuleNameLoop base [] = base"
| "RuleNameLoop base (name # names) =
     (let name' = (case LastIndexFunc name notIdent of
                     Some i \<Rightarrow> drop (i + 1) name
                   | None \<Rightarrow> name)
      in if name' \<noteq> [] then name' else RuleNameLoop base names)"

definition RuleName :: "string list \<Rightarrow> string" where
  "RuleName names = RuleNameLoop ''root'' names @ ''_proto''"

section \<open>Packages\<close>

text \<open>
  The declaration of \<open>Package\<close> is not among the sources. The generator reads its
  fields \<open>Name\<close>, \<open>Files\<close>, \<open>Imports\<close> and \<open>Options\<close>; \<open>Files\<close> and \<open>Imports\<close> are Go
  maps used as sets, of which only the keys are read, and \<open>Options\<close> maps option keys
  to values. A Go map is visited by \<open>range\<close> in an unspecified order: \<open>Files\<close> and
  \<open>Imports\<close> are the lists of keys, and \<open>Options\<close> the list of entries, in the order
  \<open>range\<close> happens to visit them. The keys of a map are distinct; a lookup
  \<open>pkg.Options[k]\<close> is \<^const>\<open>map_of\<close>.
\<close>

record Package =
  Name :: string
  Files :: "string list"
  Imports :: "string list"
  Options :: "(string \<times> string) list"

definition goPackageName :: "Package \<Rightarrow> string" where
  "goPackageName pkg =
     (case map_of (Options pkg) ''go_package'' of
        Some opt \<Rightarrow>
          (case IndexByte opt (CHR '';'') of
             Some i \<Rightarrow> drop (i + 1) opt
           | None \<Rightarrow>
               (case LastIndexByte opt (CHR ''/'') of
                  Some i \<Rightarrow> drop (i + 1) opt
                | None \<Rightarrow> opt))
      | None \<Rightarrow>
          if Name pkg \<noteq> [] then Replace (Name pkg) (CHR ''.'') (CHR ''_'')
          else if length (Files pkg) = 1
            then (case Files pkg of s # _ \<Rightarrow> TrimSuffix s ''.proto'' | [] \<Rightarrow> [])
          else [])"

text \<open>
  \<open>selectPackage\<close> returns a pointer and an error: \<open>Inr None\<close> is \<open>(nil, nil)\<close>,
  \<open>Inr (Some pkg)\<close> is \<open>(pkg, nil)\<close> and \<open>Inl msg\<close> is \<open>(nil, err)\<close> with the message of
  the error. The argument \<open>packageMap\<close> lists the entries of the Go map in the order
  in which \<open>range\<close> visits them.
\<close>

type_synonym error = string

definition multiplePackagesError :: "string \<Rightarrow> error" where
  "multiplePackagesError dir =
     dir @ '': directory contains multiple proto packages. Gazelle can only generate a proto_library for one package.''"

fun selectPackageLoop :: "string \<Rightarrow> (string \<times> Package) list \<Rightarrow> Package option" where
  "selectPackageLoop defaultPackageName [] = None"
| "selectPackageLoop defaultPackageName ((key, pkg) # rest) =
     (let pkgName = goPackageName pkg in
      if pkgName \<noteq> [] \<and> pkgName = defaultPackageName then Some pkg
      else selectPackageLoop defaultPackageName rest)"

definition selectPackage ::
  "string \<Rightarrow> string \<Rightarrow> (string \<times> Package) list \<Rightarrow> error + Package option" where
  "selectPackage dir rel packageMap =
     (if length packageMap = 0 then Inr None
      else if length packageMap = 1 then
        (case packageMap of (key, pkg) # _ \<Rightarrow> Inr (Some pkg) | [] \<Rightarrow> Inr None)
      else
        (let defaultPackageName = Replace rel (CHR ''/'') (CHR ''_'') in
         case selectPackageLoop defaultPackageName packageMap of
           Some pkg \<Rightarrow> Inr (Some pkg)
         | None \<Rightarrow> Inl (multiplePackagesError dir)))"

section \<open>The guessed name in the words of the specification\<close>

text \<open>
  The specification describes the guessed external name by what it keeps of the
  override option: the value after a \<open>;\<close>, else the suffix after the last \<open>/\<close>, else
  the raw value. These are written with \<^const>\<open>takeWhile\<close> and \<^const>\<open>dropWhile\<close>, with
  no index arithmetic, to be compared with \<^const>\<open>goPackageName\<close>.
\<close>

definition after_semicolon :: "string \<Rightarrow> string" where
  "after_semicolon opt = tl (dropWhile (\<lambda>c. c \<noteq> CHR '';'') opt)"

definition after_last_slash :: "string \<Rightarrow> string" where
  "after_last_slash opt = rev (takeWhile (\<lambda>c. c \<noteq> CHR ''/'') (rev opt))"

definition guessed_external_name :: "Package \<Rightarrow> string" where
  "guessed_external_name pkg =
     (case map_of (Options pkg) ''go_package'' of
        Some opt \<Rightarrow>
          if CHR '';'' \<in> set opt then after_semicolon opt
          else if CHR ''/'' \<in> set opt then after_last_slash opt
          else opt
      | None \<Rightarrow>
          if Name pkg \<noteq> [] then map (\<lambda>c. if c = CHR ''.'' then CHR ''_'' else c) (Name pkg)
          else (case Files pkg of
                  [f] \<Rightarrow>
                    if HasSuffix f ''.proto'' then take (length f - length ''.proto'') f else f
                | _ \<Rightarrow> []))"

section \<open>Source files and the partition into packages\<close>

text \<open>
  Modelled from the spec: the declarations of \<open>FileInfo\<close>, \<open>newPackage\<close>, \<open>addFile\<close> and
  \<open>addGenFile\<close> are not among the sources. The specification's SourceUnitInfo is a
  file name, a declared package, an ordered sequence of (key, value) options and a set
  of imports; a Package is created empty with a name, \<open>addFile\<close> merges one unit's
  imports and options (last writer wins per key) and adds its file, and \<open>addGenFile\<close>
  adds a file name with no associated analysis. Adding a key that a Go map already
  holds leaves the set of keys as it is.
\<close>

record FileInfo =
  FileName :: string
  PackageName :: string
  FileOptions :: "(string \<times> string) list"
  FileImports :: "string list"

definition newPackage :: "string \<Rightarrow> Package" where
  "newPackage name = \<lparr>Name = name, Files = [], Imports = [], Options = []\<rparr>"

definition addFile :: "Package \<Rightarrow> FileInfo \<Rightarrow> Package" where
  "addFile p info =
     p\<lparr>Files := List.insert (FileName info) (Files p),
       Imports := fold List.insert (FileImports info) (Imports p),
       Options := fold (\<lambda>(k, v) opts. AList.update k v opts) (FileOptions info) (Options p)\<rparr>"

definition addGenFile :: "Package \<Rightarrow> string \<Rightarrow> string \<Rightarrow> Package" where
  "addGenFile p dir name = p\<lparr>Files := List.insert name (Files p)\<rparr>"

section \<open>Rules\<close>

text \<open>
  Modelled from the spec: package \<open>rule\<close> (\<open>Rule\<close>, \<open>File\<close>, \<open>NewRule\<close>, \<open>Kind\<close>, \<open>Name\<close>,
  \<open>Attr\<close>, \<open>AttrStrings\<close>, \<open>SetAttr\<close>, \<open>SetPrivateAttr\<close>) is not among the sources. The
  specification's RuleRecord is a kind, a name, a mapping of attributes and a mapping
  of deferred attributes that are not rendered. An attribute of an existing rule
  either is a plain list of file-name strings or cannot be interpreted as one (a
  computed expression); \<open>Attr\<close> is \<open>nil\<close> (\<open>None\<close>) for an attribute the rule does not
  have, and \<open>AttrStrings\<close> gives the listed strings, and no string for an attribute
  that is absent or is not a plain list. A deferred attribute holds a Package, a list
  of strings or a string.
\<close>

datatype expr = StringList "string list" | Computed

datatype private_value = PackageValue Package | StringsValue "string list" | StringValue string

record Rule =
  rule_kind :: string
  rule_name :: string
  rule_attrs :: "(string \<times> expr) list"
  rule_private :: "(string \<times> private_value) list"

record File =
  Rules :: "Rule list"

definition NewRule :: "string \<Rightarrow> string \<Rightarrow> Rule" where
  "NewRule kind name =
     \<lparr>rule_kind = kind, rule_name = name, rule_attrs = [], rule_private = []\<rparr>"

definition Attr :: "Rule \<Rightarrow> string \<Rightarrow> expr option" where
  "Attr r key = map_of (rule_attrs r) key"

definition AttrStrings :: "Rule \<Rightarrow> string \<Rightarrow> string list" where
  "AttrStrings r key =
     (case map_of (rule_attrs r) key of Some (StringList strs) \<Rightarrow> strs | _ \<Rightarrow> [])"


definition SetAttr :: "Rule \<Rightarrow> string \<Rightarrow> expr \<Rightarrow> Rule" where
  "SetAttr r key v = r\<lparr>rule_attrs := AList.update key v (rule_attrs r)\<rparr>"

definition SetPrivateAttr :: "Rule \<Rightarrow> string \<Rightarrow> private_value \<Rightarrow> Rule" where
  "SetPrivateAttr r key v = r\<lparr>rule_private := AList.update key v (rule_private r)\<rparr>"

text \<open>
  Modelled from the spec: the keys of the two deferred attachments are not declared
  in the sources. The imports key is the one under which the golden build files
  print the imports; of the package key the specification says that it is fixed and
  private.
\<close>

definition GazelleImportsKey :: string where
  "GazelleImportsKey = ''_gazelle_imports''"

definition PackageKey :: string where
  "PackageKey = ''_package''"

section \<open>Configuration\<close>

text \<open>
  The source names the modes \<open>DefaultMode\<close> (one canonical package for a directory)
  and \<open>PackageMode\<close> (a rule for every package); \<open>buildPackages\<close> has a \<open>default\<close>
  branch for the modes it does not name, which are \<open>OtherMode\<close> here.
\<close>

datatype Mode = DefaultMode | PackageMode | OtherMode

text \<open>
  Modelled from the spec: \<open>ShouldGenerateRules\<close> is not among the sources. The
  specification has two operating modes in which rules are generated, multi-package
  and single-canonical; in a mode for which \<open>ShouldGenerateRules\<close> is false
  \<open>GenerateRules\<close> neither creates nor deletes rules.
\<close>

definition ShouldGenerateRules :: "Mode \<Rightarrow> bool" where
  "ShouldGenerateRules m = (case m of DefaultMode \<Rightarrow> True | PackageMode \<Rightarrow> True | OtherMode \<Rightarrow> False)"

record ProtoConfig =
  Mode :: Mode
  GoPrefix :: string
  groupOption :: string

text \<open>
  Of \<open>config.Config\<close> the generator calls \<open>MapKind\<close>, which is a parameter, and reads
  the proto configuration with \<open>GetProtoConfig\<close>.
\<close>

record Config =
  MapKind :: "string \<Rightarrow> string"
  ProtoExt :: ProtoConfig

definition GetProtoConfig :: "Config \<Rightarrow> ProtoConfig" where
  "GetProtoConfig c = ProtoExt c"

record GenerateArgs =
  Config :: Config
  Dir :: string
  Rel :: string
  File :: "File option"
  RegularFiles :: "string list"
  GenFiles :: "string list"

text \<open>
  What the generator asks of its collaborators: the analysis \<open>protoFileInfo\<close> of a
  source file, whether a rule is empty for the kind table of the proto rules
  (\<open>r.IsEmpty(protoKinds[r.Kind()])\<close>), and the order in which \<open>range\<close> visits the entries
  of the package map, which Go leaves unspecified.
\<close>

record world =
  protoFileInfo :: "string \<Rightarrow> string \<Rightarrow> FileInfo"
  IsEmpty :: "Rule \<Rightarrow> bool"
  rangeOrder :: "(string \<times> Package) list \<Rightarrow> (string \<times> Package) list"

section \<open>The generator\<close>

text \<open>
  The fields \<open>c\<close>, \<open>file\<close> and \<open>rel\<close> of the generator are \<open>g_c\<close>, \<open>g_file\<close> and \<open>g_rel\<close>.
\<close>

record generator =
  g_c :: Config
  g_file :: "File option"
  g_rel :: string
  shouldSetVisibility :: bool
  regularProtoFiles :: "string list"
  genProtoFiles :: "string list"

definition hasDefaultVisibility :: "File option \<Rightarrow> bool" where
  "hasDefaultVisibility f =
     (case f of
        None \<Rightarrow> False
      | Some f' \<Rightarrow>
          list_ex (\<lambda>r. rule_kind r = ''package'' \<and> Attr r ''default_visibility'' \<noteq> None)
            (Rules f'))"

text \<open>
  The two loops of \<open>newGenerator\<close>, each a left fold over the file names with the
  slice under construction as accumulator. The first appends to its own slice; the
  second appends to \<open>args.GenFiles\<close>, as the source does.
\<close>

definition newGenerator :: "GenerateArgs \<Rightarrow> generator" where
  "newGenerator args =
     (let regularProtoFiles =
            foldl (\<lambda>regularProtoFiles name.
                     if HasSuffix name ''.proto'' then regularProtoFiles @ [name]
                     else regularProtoFiles)
              [] (RegularFiles args);
          genProtoFiles =
            foldl (\<lambda>genProtoFiles name.
                     if HasSuffix name ''.proto'' then GenFiles args @ [name]
                     else genProtoFiles)
              [] (GenFiles args);
          shouldSetVisibility = (File args = None \<or> \<not> hasDefaultVisibility (File args))
      in \<lparr>g_c = Config args, g_file = File args, g_rel = Rel args,
          shouldSetVisibility = shouldSetVisibility,
          regularProtoFiles = regularProtoFiles, genProtoFiles = genProtoFiles\<rparr>)"

definition newRule :: "generator \<Rightarrow> string \<Rightarrow> string \<Rightarrow> Rule" where
  "newRule g ruleKind ruleName = NewRule (MapKind (g_c g) ruleKind) ruleName"

definition checkInternalVisibility :: "string \<Rightarrow> string \<Rightarrow> string" where
  "checkInternalVisibility rel visibility =
     (case LastIndex rel ''/internal/'' of
        Some i \<Rightarrow> ''//'' @ take i rel @ '':__subpackages__''
      | None \<Rightarrow>
          if HasPrefix rel ''internal/'' then ''//:__subpackages__''
          else visibility)"

text \<open>
  The partition key of a file: its package name, or the value of the first option
  whose key is the configured grouping option.
\<close>

fun groupKey :: "string \<Rightarrow> (string \<times> string) list \<Rightarrow> string \<Rightarrow> string" where
  "groupKey wanted [] key = key"
| "groupKey wanted ((optKey, optValue) # opts) key =
     (if optKey = wanted then optValue else groupKey wanted opts key)"

definition addToPackageMap ::
  "world \<Rightarrow> ProtoConfig \<Rightarrow> string \<Rightarrow> (string \<times> Package) list \<Rightarrow> string \<Rightarrow>
   (string \<times> Package) list" where
  "addToPackageMap w pc dir packageMap name =
     (let info = protoFileInfo w dir name;
          key = (if groupOption pc \<noteq> [] then groupKey (groupOption pc) (FileOptions info) (PackageName info)
                 else PackageName info);
          packageMap' = (if map_of packageMap key = None
                         then AList.update key (newPackage (PackageName info)) packageMap
                         else packageMap)
      in case map_of packageMap' key of
           Some pkg \<Rightarrow> AList.update key (addFile pkg info) packageMap'
         | None \<Rightarrow> packageMap')"

definition partitionFiles ::
  "world \<Rightarrow> generator \<Rightarrow> ProtoConfig \<Rightarrow> string \<Rightarrow> (string \<times> Package) list" where
  "partitionFiles w g pc dir = foldl (addToPackageMap w pc dir) [] (regularProtoFiles g)"

text \<open>
  \<open>buildPackages\<close> returns the packages to generate rules for, and here also what it
  printed to the log.
\<close>

definition buildPackages ::
  "world \<Rightarrow> generator \<Rightarrow> ProtoConfig \<Rightarrow> string \<Rightarrow> Package list \<times> string list" where
  "buildPackages w g pc dir =
     (let packageMap = partitionFiles w g pc dir in
      case Mode pc of
        DefaultMode \<Rightarrow>
          (case selectPackage dir (g_rel g) (rangeOrder w packageMap) of
             Inl err \<Rightarrow> ([], [err])
           | Inr None \<Rightarrow> ([], [])
           | Inr (Some pkg) \<Rightarrow>
               ([foldl (\<lambda>pkg name. addGenFile pkg dir name) pkg (genProtoFiles g)], []))
      | PackageMode \<Rightarrow> (map snd (rangeOrder w packageMap), [])
      | OtherMode \<Rightarrow> ([], []))"

definition generateProto :: "generator \<Rightarrow> ProtoConfig \<Rightarrow> Package \<Rightarrow> Rule" where
  "generateProto g pc pkg =
     (let name =
            (if Mode pc = DefaultMode then RuleName [goPackageName pkg, GoPrefix pc, g_rel g]
             else RuleName [case map_of (Options pkg) (groupOption pc) of Some v \<Rightarrow> v | None \<Rightarrow> [],
                            Name pkg, g_rel g]);
          r = newRule g ''proto_library'' name;
          srcs = sort (Files pkg);
          r = (if 0 < length srcs then SetAttr r ''srcs'' (StringList srcs) else r);
          r = SetPrivateAttr r PackageKey (PackageValue pkg);
          imports = sort (Imports pkg);
          r = SetPrivateAttr r GazelleImportsKey (StringsValue imports);
          r = foldl (\<lambda>r (k, v). SetPrivateAttr r k (StringValue v)) r (Options pkg)
      in if shouldSetVisibility g
         then SetAttr r ''visibility''
                (StringList [checkInternalVisibility (g_rel g) ''//visibility:public''])
         else r)"

text \<open>
  The body of the loop of \<open>generateEmpty\<close> over the rules of the existing file, with
  the slice \<open>empty\<close> as accumulator \<open>empties\<close>; \<open>continue\<close> and \<open>continue outer\<close> leave it as it is.
  The set \<open>knownFiles\<close> is given by the list \<open>known\<close> of its members.
\<close>

definition generateEmptyStep :: "generator \<Rightarrow> string list \<Rightarrow> Rule list \<Rightarrow> Rule \<Rightarrow> Rule list" where
  "generateEmptyStep g known empties r =
     (if rule_kind r \<noteq> MapKind (g_c g) ''proto_library'' then empties
      else
        let srcs = AttrStrings r ''srcs'' in
        if length srcs = 0 \<and> Attr r ''srcs'' \<noteq> None then empties
        else if list_ex (\<lambda>src. src \<in> set known) (AttrStrings r ''srcs'') then empties
        else empties @ [newRule g ''proto_library'' (rule_name r)])"

definition knownFiles :: "generator \<Rightarrow> string list" where
  "knownFiles g = regularProtoFiles g @ genProtoFiles g"

definition generateEmptyLoop :: "generator \<Rightarrow> string list \<Rightarrow> Rule list \<Rightarrow> Rule list" where
  "generateEmptyLoop g known rules = foldl (generateEmptyStep g known) [] rules"

definition generateEmpty :: "generator \<Rightarrow> Rule list" where
  "generateEmpty g =
     (case g_file g of
        None \<Rightarrow> []
      | Some f \<Rightarrow> generateEmptyLoop g (knownFiles g) (Rules f))"

definition GenerateRules :: "world \<Rightarrow> GenerateArgs \<Rightarrow> Rule list \<times> Rule list \<times> string list" where
  "GenerateRules w args =
     (let c = Config args; pc = GetProtoConfig c in
      if \<not> ShouldGenerateRules (Mode pc) then ([], [], [])
      else
        let g = newGenerator args;
            (pkgs, logged) = buildPackages w g pc (Dir args);
            (empties, gen) =
              foldl (\<lambda>(empties, gen) pkg.
                       let r = generateProto g pc pkg in
                       if IsEmpty w r then (empties @ [r], gen) else (empties, gen @ [r]))
                ([], []) pkgs;
            gen = sort_key rule_name gen;
            empties = empties @ generateEmpty g
        in (empties, gen, logged))"

section \<open>The kind table of the Go rules\<close>

text \<open>
  The declaration of \<open>rule.KindInfo\<close> is not among the sources; the table sets its
  fields \<open>MatchAny\<close>, \<open>MatchAttrs\<close>, \<open>NonEmptyAttrs\<close>, \<open>SubstituteAttrs\<close>, \<open>MergeableAttrs\<close>
  and \<open>ResolveAttrs\<close>. A \<open>map[string]bool\<close> of the table holds \<open>true\<close> for each of its
  keys and is the list of its keys here. A field that an entry does not set has Go's
  zero value, as in \<open>zeroKindInfo\<close>.
\<close>

record KindInfo =
  MatchAny :: bool
  MatchAttrs :: "string list"
  NonEmptyAttrs :: "string list"
  SubstituteAttrs :: "string list"
  MergeableAttrs :: "string list"
  ResolveAttrs :: "string list"

definition zeroKindInfo :: KindInfo where
  "zeroKindInfo =
     \<lparr>MatchAny = False, MatchAttrs = [], NonEmptyAttrs = [], SubstituteAttrs = [],
      MergeableAttrs = [], ResolveAttrs = []\<rparr>"

definition goKinds :: "(string \<times> KindInfo) list" where
  "goKinds =
     [(''alias'',
       zeroKindInfo\<lparr>NonEmptyAttrs := [''actual''], MergeableAttrs := [''actual'']\<rparr>),
      (''filegroup'',
       zeroKindInfo\<lparr>NonEmptyAttrs := [''srcs''], MergeableAttrs := [''srcs'']\<rparr>),
      (''go_binary'',
       zeroKindInfo\<lparr>MatchAny := True,
         NonEmptyAttrs := [''deps'', ''embed'', ''srcs''],
         SubstituteAttrs := [''embed''],
         MergeableAttrs := [''cgo'', ''clinkopts'', ''cppopts'', ''copts'', ''cxxopts'', ''embed'',
                            ''srcs''],
         ResolveAttrs := [''deps'']\<rparr>),
      (''go_library'',
       zeroKindInfo\<lparr>MatchAttrs := [''importpath''],
         NonEmptyAttrs := [''deps'', ''embed'', ''srcs''],
         SubstituteAttrs := [''embed''],
         MergeableAttrs := [''cgo'', ''clinkopts'', ''cppopts'', ''copts'', ''cxxopts'', ''embed'',
                            ''importmap'', ''importpath'', ''srcs''],
         ResolveAttrs := [''deps'']\<rparr>),
      (''yext_protos'', zeroKindInfo),
      (''go_proto_library'',
       zeroKindInfo\<lparr>MatchAttrs := [''importpath''],
         NonEmptyAttrs := [''deps'', ''embed'', ''proto'', ''srcs''],
         SubstituteAttrs := [''proto''],
         MergeableAttrs := [''srcs'', ''importpath'', ''importmap'', ''cgo'', ''clinkopts'',
                            ''cppopts'', ''copts'', ''cxxopts'', ''embed'', ''proto'',
                            ''compilers''],
         ResolveAttrs := [''deps'']\<rparr>),
      (''go_repository'',
       zeroKindInfo\<lparr>MatchAttrs := [''importpath''],
         NonEmptyAttrs := [''importpath''],
         MergeableAttrs := [''commit'', ''build_tags'', ''importpath'', ''remote'', ''replace'',
                            ''sha256'', ''strip_prefix'', ''sum'', ''tag'', ''type'', ''urls'',
                            ''vcs'', ''version'']\<rparr>),
      (''go_test'',
       zeroKindInfo\<lparr>
         NonEmptyAttrs := [''deps'', ''embed'', ''srcs''],
         MergeableAttrs := [''cgo'', ''clinkopts'', ''cppopts'', ''copts'', ''cxxopts'', ''embed'',
                            ''srcs''],
         ResolveAttrs := [''deps'']\<rparr>),
      (''go_tool_library'',
       zeroKindInfo\<lparr>MatchAttrs := [''importpath''],
         NonEmptyAttrs := [''deps'', ''embed'', ''srcs''],
         SubstituteAttrs := [''embed''],
         MergeableAttrs := [''cgo'', ''clinkopts'', ''cppopts'', ''copts'', ''cxxopts'', ''embed'',
                            ''importmap'', ''importpath'', ''srcs''],
         ResolveAttrs := [''deps'']\<rparr>)]"

text \<open>
  The five policy sets of a kind (identity-matching, required-non-empty, mergeable,
  substitute, resolved), the attribute names they reference, and in how many of the
  sets a name appears.
\<close>

definition policySets :: "KindInfo \<Rightarrow> string list list" where
  "policySets info =
     [MatchAttrs info, NonEmptyAttrs info, MergeableAttrs info, SubstituteAttrs info,
      ResolveAttrs info]"

definition referencedAttrs :: "KindInfo \<Rightarrow> string list" where
  "referencedAttrs info = concat (policySets info)"

definition occurrences :: "string \<Rightarrow> KindInfo \<Rightarrow> nat" where
  "occurrences a info = length (filter (\<lambda>s. a \<in> set s) (policySets info))"

section \<open>Paths in the words of the specification\<close>

text \<open>
  The specification speaks of the segments of a slash-relative path. \<open>path_segments\<close>
  splits a path at every \<open>/\<close> and \<open>join_segments\<close> puts segments together with \<open>/\<close>
  between them; \<open>last_index_of\<close> is the index of the last occurrence of an element.
\<close>

fun path_segments :: "string \<Rightarrow> string list" where
  "path_segments [] = [[]]"
| "path_segments (x # xs) =
     (if x = CHR ''/'' then [] # path_segments xs
      else (case path_segments xs of
              seg # segs \<Rightarrow> (x # seg) # segs
            | [] \<Rightarrow> [[x]]))"

fun join_segments :: "string list \<Rightarrow> string" where
  "join_segments [] = []"
| "join_segments [seg] = seg"
| "join_segments (seg # segs) = seg @ CHR ''/'' # join_segments segs"

fun last_index_of :: "'a \<Rightarrow> 'a list \<Rightarrow> nat option" where
  "last_index_of a [] = None"
| "last_index_of a (x # xs) =
     (case last_index_of a xs of
        Some k \<Rightarrow> Some (Suc k)
      | None \<Rightarrow> if x = a then Some 0 else None)"

text \<open>
  The visibility by segments: the last segment \<open>internal\<close> that is followed by a further
  segment narrows the visibility to the subpackages of the path before it.
\<close>

definition visibility_by_segments :: "string \<Rightarrow> string" where
  "visibility_by_segments path =
     (let segs = path_segments path in
      case last_index_of ''internal'' (butlast segs) of
        None \<Rightarrow> ''//visibility:public''
      | Some k \<Rightarrow> ''//'' @ join_segments (take k segs) @ '':__subpackages__'')"

definition default_name :: "string \<Rightarrow> string" where
  "default_name path = map (\<lambda>ch. if ch = CHR ''/'' then CHR ''_'' else ch) path"

text \<open>
  The segments of a path written one after the other, each after a \<open>/\<close>: the path
  itself after a leading \<open>/\<close>.
\<close>

definition slash_cat :: "string list \<Rightarrow> string" where
  "slash_cat segs = concat (map (\<lambda>seg. CHR ''/'' # seg) segs)"

section \<open>Rule names in the words of the specification\<close>

text \<open>
  An identifier character is a letter, a digit or an underscore. The trimmed
  candidate is what follows the last character that is not one (the whole candidate
  when there is none), the base is the first trimmed candidate that is not empty, or
  \<open>root\<close>, and the name is the base followed by \<open>_proto\<close>. A character outside ASCII is
  encoded by bytes none of which is an identifier character, so that the trimmed
  candidate can be read off the bytes.
\<close>

definition ident_char :: "char \<Rightarrow> bool" where
  "ident_char ch =
     (CHR ''A'' \<le> ch \<and> ch \<le> CHR ''Z'' \<or> CHR ''a'' \<le> ch \<and> ch \<le> CHR ''z'' \<or>
      CHR ''0'' \<le> ch \<and> ch \<le> CHR ''9'' \<or> ch = CHR ''_'')"

definition ident_suffix :: "string \<Rightarrow> string" where
  "ident_suffix name = rev (takeWhile ident_char (rev name))"

definition rule_name_spec :: "string list \<Rightarrow> string" where
  "rule_name_spec names =
     (case filter (\<lambda>t. t \<noteq> []) (map ident_suffix names) of
        [] \<Rightarrow> ''root''
      | t # _ \<Rightarrow> t) @ ''_proto''"

section \<open>Example inputs\<close>

text \<open>
  The inputs at which the theorems below are instantiated: a configuration that maps
  no kind, a generator over an existing build file with given rules and given regular
  proto files, and an existing \<open>proto_library\<close> rule with given attributes.
\<close>

definition example_config :: Config where
  "example_config =
     \<lparr>MapKind = (\<lambda>kind. kind),
      ProtoExt = \<lparr>Mode = DefaultMode, GoPrefix = ''example.com/repo'', groupOption = []\<rparr>\<rparr>"

definition example_generator :: "Rule list \<Rightarrow> string list \<Rightarrow> generator" where
  "example_generator rules regular =
     \<lparr>g_c = example_config, g_file = Some \<lparr>Rules = rules\<rparr>, g_rel = ''foo/bar'',
      shouldSetVisibility = True, regularProtoFiles = regular, genProtoFiles = []\<rparr>"

definition example_rule :: "string \<Rightarrow> (string \<times> expr) list \<Rightarrow> Rule" where
  "example_rule name attrs =
     \<lparr>rule_kind = ''proto_library'', rule_name = name, rule_attrs = attrs, rule_private = []\<rparr>"

definition example_p1 :: Package where
  "example_p1 = \<lparr>Name = ''p1'', Files = [''a.proto''], Imports = [], Options = []\<rparr>"

definition example_p2 :: Package where
  "example_p2 =
     \<lparr>Name = ''p2'', Files = [''b.proto''], Imports = [],
      Options = [(''go_package'', ''example.com/repo/foo/bar;foo_bar'')]\<rparr>"

definition example_args :: "File option \<Rightarrow> string list \<Rightarrow> string list \<Rightarrow> GenerateArgs" where
  "example_args old regular gen =
     \<lparr>Config = example_config, Dir = ''/repo/foo/bar'', Rel = ''foo/bar'', File = old,
      RegularFiles = regular, GenFiles = gen\<rparr>"

text \<open>
  A world in which \<open>a.proto\<close> declares package \<open>p1\<close> and every other file package
  \<open>p2\<close>, a rule is empty when it has no \<open>srcs\<close>, and \<open>range\<close> visits the package map
  backwards.
\<close>

definition example_world :: world where
  "example_world =
     \<lparr>protoFileInfo = (\<lambda>dir name.
        \<lparr>FileName = name, PackageName = (if name = ''a.proto'' then ''p1'' else ''p2''),
         FileOptions = [], FileImports = []\<rparr>),
      IsEmpty = (\<lambda>r. Attr r ''srcs'' = None),
      rangeOrder = rev\<rparr>"



section \<open>Selection\<close>

lemma IndexByte_None: "IndexByte s c = None \<longleftrightarrow> c \<notin> set s"
  by (induction s) auto

lemma IndexByte_Some: "IndexByte s c = Some i \<Longrightarrow> drop (i + 1) s = tl (dropWhile (\<lambda>x. x \<noteq> c) s)"
  by (induction s arbitrary: i) (auto split: if_splits)

lemma LastIndexByte_None: "LastIndexByte s c = None \<longleftrightarrow> c \<notin> set s"
  by (induction s) (auto split: option.splits)

lemma LastIndexByte_Some:
  "LastIndexByte s c = Some i \<Longrightarrow> drop (i + 1) s = rev (takeWhile (\<lambda>x. x \<noteq> c) (rev s))"
proof (induction s arbitrary: i)
  case Nil
  then show ?case by simp
next
  case (Cons x xs)
  show ?case
  proof (cases "LastIndexByte xs c")
    case None
    then have notin: "c \<notin> set xs" by (simp add: LastIndexByte_None)
    with Cons.prems None have "i = 0" "x = c" by (auto split: if_splits)
    moreover from notin have "takeWhile (\<lambda>x. x \<noteq> c) (rev xs) = rev xs"
      by auto
    ultimately show ?thesis by (simp add: takeWhile_append)
  next
    case (Some j)
    then have "c \<in> set xs" using LastIndexByte_None [of xs c] by auto
    then have "takeWhile (\<lambda>x. x \<noteq> c) (rev xs @ [x]) = takeWhile (\<lambda>x. x \<noteq> c) (rev xs)"
      by (intro takeWhile_append1 [of c]) simp_all
    with Cons Some show ?thesis by auto
  qed
qed

lemma goPackageName_spec: "goPackageName pkg = guessed_external_name pkg"
proof (cases "map_of (Options pkg) ''go_package''")
  case None
  then show ?thesis
    by (cases "Files pkg")
       (auto simp: goPackageName_def guessed_external_name_def Replace_def TrimSuffix_def
             split: list.splits)
next
  case (Some opt)
  then show ?thesis
    using IndexByte_None [of opt "CHR '';''"] LastIndexByte_None [of opt "CHR ''/''"]
      IndexByte_Some [of opt "CHR '';''"] LastIndexByte_Some [of opt "CHR ''/''"]
    by (auto simp: goPackageName_def guessed_external_name_def after_semicolon_def
          after_last_slash_def split: option.splits)
qed

lemma selectPackageLoop_Some:
  "selectPackageLoop d pm = Some pkg \<Longrightarrow>
     pkg \<in> snd ` set pm \<and> goPackageName pkg = d \<and> goPackageName pkg \<noteq> []"
  by (induction pm) (auto simp: Let_def split: if_splits)

lemma selectPackageLoop_None:
  "selectPackageLoop d pm = None \<longleftrightarrow>
     (\<forall>pkg \<in> snd ` set pm. \<not> (goPackageName pkg \<noteq> [] \<and> goPackageName pkg = d))"
  by (induction pm) (auto simp: Let_def split: if_splits)

lemma Replace_default_name: "Replace path (CHR ''/'') (CHR ''_'') = default_name path"
  by (simp add: Replace_def default_name_def)

text \<open>
  Claim C8. In single-canonical mode, a directory with exactly one candidate package
  has that package selected, whatever its name, its key in the package map, the
  directory and the relative path are; a directory with no candidate has nothing
  selected, and no error.
\<close>

theorem selectPackage_one_or_none:
  "selectPackage dir rel [(key, pkg)] = Inr (Some pkg) \<and> selectPackage dir rel [] = Inr None"
  by (simp add: selectPackage_def)

text \<open>
  Claim C1. With more than one candidate, whatever the order in which the package map
  is visited: selection either returns a candidate whose guessed external name, as
  the specification describes it, is not empty and equals the default name (the
  relative path with every \<open>/\<close> replaced by \<open>_\<close>), or it fails, and then no candidate
  has such a name. So a candidate with the default name is returned whenever there is
  one, and it is the one returned when it is the only one.
\<close>

theorem selectPackage_default_name:
  assumes "1 < length packageMap"
  shows "case selectPackage dir rel packageMap of
           Inr (Some pkg) \<Rightarrow>
             pkg \<in> snd ` set packageMap \<and> guessed_external_name pkg \<noteq> [] \<and>
             guessed_external_name pkg = default_name rel
         | Inr None \<Rightarrow> False
         | Inl err \<Rightarrow>
             list_all (\<lambda>(key, pkg). guessed_external_name pkg = [] \<or>
                                   guessed_external_name pkg \<noteq> default_name rel) packageMap"
proof (cases "selectPackageLoop (default_name rel) packageMap")
  case None
  then have "\<forall>pkg \<in> snd ` set packageMap.
      \<not> (goPackageName pkg \<noteq> [] \<and> goPackageName pkg = default_name rel)"
    by (simp only: selectPackageLoop_None)
  then have "list_all (\<lambda>(key, pkg). guessed_external_name pkg = [] \<or>
                                   guessed_external_name pkg \<noteq> default_name rel) packageMap"
    by (auto simp: list_all_iff goPackageName_spec)
  with None assms show ?thesis
    by (auto simp: selectPackage_def Replace_default_name)
next
  case (Some pkg)
  from selectPackageLoop_Some [OF this] Some assms show ?thesis
    by (auto simp: selectPackage_def Replace_default_name goPackageName_spec)
qed

text \<open>
  The scenario of the specification: directory \<open>foo/bar\<close> with packages \<open>p1\<close> (guessed
  name \<open>p1\<close>) and \<open>p2\<close> (guessed name \<open>foo_bar\<close>, from its override option); \<open>p2\<close> is
  selected in either order of the package map.
\<close>

theorem selectPackage_default_name_witness:
  "selectPackage ''/repo/foo/bar'' ''foo/bar'' [(''p1'', example_p1), (''p2'', example_p2)]
     = Inr (Some example_p2) \<and>
   selectPackage ''/repo/foo/bar'' ''foo/bar'' [(''p2'', example_p2), (''p1'', example_p1)]
     = Inr (Some example_p2) \<and>
   guessed_external_name example_p1 = ''p1'' \<and>
   guessed_external_name example_p2 = ''foo_bar'' \<and>
   default_name ''foo/bar'' = ''foo_bar''"
  using selectPackage_default_name
          [of "[(''p1'', example_p1), (''p2'', example_p2)]" "''/repo/foo/bar''" "''foo/bar''"]
        selectPackage_default_name
          [of "[(''p2'', example_p2), (''p1'', example_p1)]" "''/repo/foo/bar''" "''foo/bar''"]
  by (simp add: selectPackage_def goPackageName_def Replace_def guessed_external_name_def
        after_semicolon_def default_name_def example_p1_def example_p2_def)

section \<open>Stale rules\<close>

lemma generateEmptyStep_acc:
  "generateEmptyStep g known acc r = acc @ generateEmptyStep g known [] r"
  by (auto simp: generateEmptyStep_def Let_def)

lemma foldl_generateEmptyStep:
  "foldl (generateEmptyStep g known) acc rs = acc @ foldl (generateEmptyStep g known) [] rs"
proof (induction rs arbitrary: acc)
  case Nil
  show ?case by simp
next
  case (Cons r rs)
  have "foldl (generateEmptyStep g known) acc (r # rs)
      = foldl (generateEmptyStep g known) (generateEmptyStep g known acc r) rs"
    by simp
  also have "\<dots> = generateEmptyStep g known acc r @ foldl (generateEmptyStep g known) [] rs"
    by (rule Cons.IH)
  also have "\<dots> = acc @ generateEmptyStep g known [] r @ foldl (generateEmptyStep g known) [] rs"
    by (subst generateEmptyStep_acc) simp
  also have "\<dots> = acc @ foldl (generateEmptyStep g known) (generateEmptyStep g known [] r) rs"
    by (subst (2) Cons.IH) simp
  finally show ?case by simp
qed

lemma generateEmptyLoop_split:
  "generateEmptyLoop g known (pre @ r # post) =
     generateEmptyLoop g known pre @ generateEmptyStep g known [] r @ generateEmptyLoop g known post"
proof -
  have "generateEmptyLoop g known (pre @ r # post)
      = foldl (generateEmptyStep g known)
          (generateEmptyStep g known (generateEmptyLoop g known pre) r) post"
    by (simp add: generateEmptyLoop_def)
  also have "\<dots> = generateEmptyStep g known (generateEmptyLoop g known pre) r
                    @ generateEmptyLoop g known post"
    unfolding generateEmptyLoop_def by (rule foldl_generateEmptyStep)
  also have "generateEmptyStep g known (generateEmptyLoop g known pre) r
      = generateEmptyLoop g known pre @ generateEmptyStep g known [] r"
    by (rule generateEmptyStep_acc)
  finally show ?thesis by simp
qed

text \<open>
  Claim C3. Let \<open>r\<close> be a rule of the existing file, of the managed kind, whose
  \<open>srcs\<close> attribute is the plain list of strings \<open>srcs\<close>; \<open>pre\<close> are the rules before it
  and \<open>post\<close> the rules after it. When a listed source is a known file, the output of
  the stale-rule detector is what the rules before and after \<open>r\<close> give: nothing is
  emitted for \<open>r\<close>. When the list is not empty and shares no file with the known
  files, the output has, between these, one record for \<open>r\<close> that carries only the kind
  and the name of \<open>r\<close>.
\<close>

theorem generateEmpty_plain_list:
  assumes "g_file g = Some f" and "Rules f = pre @ r # post"
    and "rule_kind r = MapKind (g_c g) ''proto_library''"
    and "Attr r ''srcs'' = Some (StringList srcs)"
  shows "((\<exists>src \<in> set srcs. src \<in> set (knownFiles g)) \<longrightarrow>
            generateEmpty g =
              generateEmptyLoop g (knownFiles g) pre @ generateEmptyLoop g (knownFiles g) post) \<and>
         (srcs \<noteq> [] \<and> set srcs \<inter> set (knownFiles g) = {} \<longrightarrow>
            generateEmpty g =
              generateEmptyLoop g (knownFiles g) pre @
              [\<lparr>rule_kind = MapKind (g_c g) ''proto_library'', rule_name = rule_name r,
                rule_attrs = [], rule_private = []\<rparr>] @
              generateEmptyLoop g (knownFiles g) post)"
proof -
  have strs: "AttrStrings r ''srcs'' = srcs"
    using assms(4) by (simp add: AttrStrings_def Attr_def)
  have known: "generateEmptyStep g (knownFiles g) [] r = []"
    if "\<exists>src \<in> set srcs. src \<in> set (knownFiles g)"
    using that assms(3,4) strs by (auto simp: generateEmptyStep_def Let_def list_ex_iff)
  have stale: "generateEmptyStep g (knownFiles g) [] r =
      [\<lparr>rule_kind = MapKind (g_c g) ''proto_library'', rule_name = rule_name r,
        rule_attrs = [], rule_private = []\<rparr>]"
    if "srcs \<noteq> []" and "set srcs \<inter> set (knownFiles g) = {}"
    using that assms(3,4) strs
    by (auto simp: generateEmptyStep_def Let_def list_ex_iff newRule_def NewRule_def)
  have "generateEmpty g =
      generateEmptyLoop g (knownFiles g) pre @ generateEmptyStep g (knownFiles g) [] r @
      generateEmptyLoop g (knownFiles g) post"
    using assms(1,2) by (simp add: generateEmpty_def generateEmptyLoop_split)
  with known stale show ?thesis by simp
qed

text \<open>
  The scenario of the specification: the existing rule \<open>old_proto\<close> lists \<open>gone.src\<close> and
  the known file is \<open>new.src\<close>, so a record for \<open>old_proto\<close> is emitted; a rule that lists
  \<open>new.src\<close> as well is left alone.
\<close>

theorem generateEmpty_plain_list_witness:
  "generateEmpty
     (example_generator [example_rule ''old_proto'' [(''srcs'', StringList [''gone.src''])]]
        [''new.src''])
     = [\<lparr>rule_kind = ''proto_library'', rule_name = ''old_proto'', rule_attrs = [],
         rule_private = []\<rparr>] \<and>
   generateEmpty
     (example_generator
        [example_rule ''kept_proto'' [(''srcs'', StringList [''gone.src'', ''new.src''])]]
        [''new.src''])
     = []"
  using generateEmpty_plain_list
          [of "example_generator [example_rule ''old_proto'' [(''srcs'', StringList [''gone.src''])]]
                 [''new.src'']"
              "\<lparr>Rules = [example_rule ''old_proto'' [(''srcs'', StringList [''gone.src''])]]\<rparr>"
              "[]" "example_rule ''old_proto'' [(''srcs'', StringList [''gone.src''])]" "[]"
              "[''gone.src'']"]
        generateEmpty_plain_list
          [of "example_generator
                 [example_rule ''kept_proto'' [(''srcs'', StringList [''gone.src'', ''new.src''])]]
                 [''new.src'']"
              "\<lparr>Rules = [example_rule ''kept_proto''
                           [(''srcs'', StringList [''gone.src'', ''new.src''])]]\<rparr>"
              "[]" "example_rule ''kept_proto'' [(''srcs'', StringList [''gone.src'', ''new.src''])]"
              "[]" "[''gone.src'', ''new.src'']"]
  by (simp add: example_generator_def example_rule_def example_config_def knownFiles_def
        generateEmptyLoop_def Attr_def)

text \<open>
  What the detector does for a rule of the managed kind whose \<open>srcs\<close> attribute is not
  the empty list, with the rules \<open>pre\<close> before it and \<open>post\<close> after it: a rule whose
  attribute is not a plain list of strings is skipped; for a rule without the
  attribute, and for one none of whose listed names is a known file, one record that
  carries only the kind and the name is emitted; for a rule with a listed name that
  is a known file nothing is emitted.
\<close>

lemma generateEmpty_rule_not_empty_list:
  assumes "g_file g = Some f" and "Rules f = pre @ r # post"
    and "rule_kind r = MapKind (g_c g) ''proto_library''"
    and "Attr r ''srcs'' \<noteq> Some (StringList [])"
  shows "generateEmpty g =
           generateEmptyLoop g (knownFiles g) pre @
           (case Attr r ''srcs'' of
              Some Computed \<Rightarrow> []
            | Some (StringList srcs) \<Rightarrow>
                if list_ex (\<lambda>src. src \<in> set (knownFiles g)) srcs then []
                else [\<lparr>rule_kind = MapKind (g_c g) ''proto_library'', rule_name = rule_name r,
                       rule_attrs = [], rule_private = []\<rparr>]
            | None \<Rightarrow>
                [\<lparr>rule_kind = MapKind (g_c g) ''proto_library'', rule_name = rule_name r,
                  rule_attrs = [], rule_private = []\<rparr>]) @
           generateEmptyLoop g (knownFiles g) post"
proof -
  have step: "generateEmptyStep g (knownFiles g) [] r =
      (case Attr r ''srcs'' of
         Some Computed \<Rightarrow> []
       | Some (StringList srcs) \<Rightarrow>
           if list_ex (\<lambda>src. src \<in> set (knownFiles g)) srcs then []
           else [\<lparr>rule_kind = MapKind (g_c g) ''proto_library'', rule_name = rule_name r,
                  rule_attrs = [], rule_private = []\<rparr>]
       | None \<Rightarrow>
           [\<lparr>rule_kind = MapKind (g_c g) ''proto_library'', rule_name = rule_name r,
             rule_attrs = [], rule_private = []\<rparr>])"
  proof (cases "Attr r ''srcs''")
    case None
    with assms(3) show ?thesis
      by (simp add: generateEmptyStep_def AttrStrings_def Attr_def newRule_def NewRule_def)
  next
    case (Some e)
    with assms(3,4) show ?thesis
      by (cases e)
         (simp_all add: generateEmptyStep_def AttrStrings_def Attr_def newRule_def NewRule_def)
  qed
  have "generateEmpty g =
      generateEmptyLoop g (knownFiles g) pre @ generateEmptyStep g (knownFiles g) [] r @
      generateEmptyLoop g (knownFiles g) post"
    using assms(1,2) by (simp add: generateEmpty_def generateEmptyLoop_split)
  then show ?thesis by (simp only: step)
qed

text \<open>
  Claim C7 says that a rule of the managed kind whose \<open>srcs\<close> attribute can be read as a
  plain list of strings gets an empty record when that list is empty. The guard
  \<open>len(srcs) == 0 && r.Attr("srcs") != nil\<close>, commented \<open>srcs is not a string list;
  leave it alone\<close>, also holds for the empty list, which is a string list and matches
  no file: the rule \<open>x_proto\<close> with \<open>srcs = []\<close> is skipped and no record is emitted for
  it, while the same rule with no \<open>srcs\<close> attribute, and the rule whose only source is
  gone, get their records.
\<close>

theorem generateEmpty_empty_list_example:
  "Attr (example_rule ''x_proto'' [(''srcs'', StringList [])]) ''srcs'' = Some (StringList []) \<and>
   AttrStrings (example_rule ''x_proto'' [(''srcs'', StringList [])]) ''srcs'' = [] \<and>
   generateEmpty
     (example_generator [example_rule ''x_proto'' [(''srcs'', StringList [])]] [''new.proto''])
     = [] \<and>
   generateEmpty (example_generator [example_rule ''x_proto'' []] [''new.proto''])
     = [\<lparr>rule_kind = ''proto_library'', rule_name = ''x_proto'', rule_attrs = [],
         rule_private = []\<rparr>] \<and>
   generateEmpty
     (example_generator [example_rule ''x_proto'' [(''srcs'', StringList [''gone.proto''])]]
        [''new.proto''])
     = [\<lparr>rule_kind = ''proto_library'', rule_name = ''x_proto'', rule_attrs = [],
         rule_private = []\<rparr>]"
  by (simp add: example_generator_def example_rule_def example_config_def knownFiles_def
        generateEmpty_def generateEmptyLoop_def generateEmptyStep_def Attr_def AttrStrings_def
        newRule_def NewRule_def)

section \<open>The files of the generator\<close>

lemma foldl_append_filter:
  "foldl (\<lambda>acc name. if P name then acc @ [name] else acc) acc names = acc @ filter P names"
  by (induction names arbitrary: acc) simp_all

lemma regularProtoFiles_newGenerator:
  "regularProtoFiles (newGenerator args) =
     filter (\<lambda>name. HasSuffix name ''.proto'') (RegularFiles args)"
  by (simp add: newGenerator_def Let_def foldl_append_filter)

lemma foldl_overwrite:
  "foldl (\<lambda>acc name. if P name then base @ [name] else acc) acc names =
     (if filter P names = [] then acc else base @ [last (filter P names)])"
  by (induction names arbitrary: acc) simp_all

lemma genProtoFiles_newGenerator:
  "genProtoFiles (newGenerator args) =
     (if filter (\<lambda>name. HasSuffix name ''.proto'') (GenFiles args) = [] then []
      else GenFiles args @ [last (filter (\<lambda>name. HasSuffix name ''.proto'') (GenFiles args))])"
  by (simp add: newGenerator_def Let_def foldl_overwrite)

text \<open>
  Claim C10 says that the generated files the generator keeps are the generated file
  names that end in \<open>.proto\<close>, each once. The loop over \<open>args.GenFiles\<close> appends to
  \<open>args.GenFiles\<close> and not to the slice it builds, unlike the loop over the regular
  files just above it: with generated files \<open>gen.proto\<close> and \<open>notes.txt\<close> it keeps
  \<open>gen.proto\<close>, \<open>notes.txt\<close>, \<open>gen.proto\<close>, where the generated file names that end in
  \<open>.proto\<close> are \<open>gen.proto\<close> alone; the known files of the stale-rule detector then
  hold \<open>notes.txt\<close>.
\<close>

theorem newGenerator_genProtoFiles_example:
  "genProtoFiles (newGenerator (example_args None [''a.proto''] [''gen.proto'', ''notes.txt'']))
     = [''gen.proto'', ''notes.txt'', ''gen.proto''] \<and>
   filter (\<lambda>name. HasSuffix name ''.proto'') [''gen.proto'', ''notes.txt''] = [''gen.proto''] \<and>
   knownFiles (newGenerator (example_args None [''a.proto''] [''gen.proto'', ''notes.txt'']))
     = [''a.proto'', ''gen.proto'', ''notes.txt'', ''gen.proto'']"
  by (simp add: newGenerator_def example_args_def knownFiles_def HasSuffix_def)

section \<open>Attributes of the generated rule\<close>



lemma map_of_SetAttr: "map_of (rule_attrs (SetAttr r k v)) = (map_of (rule_attrs r))(k \<mapsto> v)"
  by (simp add: SetAttr_def update_conv')









section \<open>The kind table\<close>

text \<open>
  Claim C9, as stated, fails in the first entry of the table: for kind \<open>alias\<close> the
  attribute \<open>actual\<close> is in the required-non-empty set and in the mergeable set.
\<close>

theorem goKinds_overlap_counterexample:
  "map_of goKinds ''alias''
     = Some (zeroKindInfo\<lparr>NonEmptyAttrs := [''actual''], MergeableAttrs := [''actual'']\<rparr>) \<and>
   ''actual'' \<in> set (referencedAttrs
      (zeroKindInfo\<lparr>NonEmptyAttrs := [''actual''], MergeableAttrs := [''actual'']\<rparr>)) \<and>
   occurrences ''actual''
     (zeroKindInfo\<lparr>NonEmptyAttrs := [''actual''], MergeableAttrs := [''actual'']\<rparr>) = 2"
  by (simp add: goKinds_def zeroKindInfo_def referencedAttrs_def occurrences_def policySets_def)

text \<open>
  Claim C9, amended. For every rule kind of the table, every attribute name
  referenced by any of the kind's five policy sets appears in exactly one of the two
  sets mergeable and resolved. The identity-matching, required-non-empty and
  substitute sets are not disjoint from these two.
\<close>

theorem goKinds_mergeable_or_resolved:
  "\<forall>(kind, info) \<in> set goKinds. \<forall>a \<in> set (referencedAttrs info).
     (a \<in> set (MergeableAttrs info)) \<noteq> (a \<in> set (ResolveAttrs info))"
  by (simp add: goKinds_def zeroKindInfo_def referencedAttrs_def policySets_def)

theorem goKinds_mergeable_or_resolved_witness:
  "(''go_test'',
    zeroKindInfo\<lparr>
      NonEmptyAttrs := [''deps'', ''embed'', ''srcs''],
      MergeableAttrs := [''cgo'', ''clinkopts'', ''cppopts'', ''copts'', ''cxxopts'', ''embed'',
                         ''srcs''],
      ResolveAttrs := [''deps'']\<rparr>) \<in> set goKinds \<and>
   ''deps'' \<in> set (referencedAttrs
      (zeroKindInfo\<lparr>
        NonEmptyAttrs := [''deps'', ''embed'', ''srcs''],
        MergeableAttrs := [''cgo'', ''clinkopts'', ''cppopts'', ''copts'', ''cxxopts'', ''embed'',
                           ''srcs''],
        ResolveAttrs := [''deps'']\<rparr>)) \<and>
   ''deps'' \<notin> set (MergeableAttrs
      (zeroKindInfo\<lparr>
        NonEmptyAttrs := [''deps'', ''embed'', ''srcs''],
        MergeableAttrs := [''cgo'', ''clinkopts'', ''cppopts'', ''copts'', ''cxxopts'', ''embed'',
                           ''srcs''],
        ResolveAttrs := [''deps'']\<rparr>)) \<and>
   ''deps'' \<in> set (ResolveAttrs
      (zeroKindInfo\<lparr>
        NonEmptyAttrs := [''deps'', ''embed'', ''srcs''],
        MergeableAttrs := [''cgo'', ''clinkopts'', ''cppopts'', ''copts'', ''cxxopts'', ''embed'',
                           ''srcs''],
        ResolveAttrs := [''deps'']\<rparr>))"
proof -
  have mem: "(''go_test'',
    zeroKindInfo\<lparr>
      NonEmptyAttrs := [''deps'', ''embed'', ''srcs''],
      MergeableAttrs := [''cgo'', ''clinkopts'', ''cppopts'', ''copts'', ''cxxopts'', ''embed'',
                         ''srcs''],
      ResolveAttrs := [''deps'']\<rparr>) \<in> set goKinds"
    by (simp add: goKinds_def)
  have ref: "''deps'' \<in> set (referencedAttrs
      (zeroKindInfo\<lparr>
        NonEmptyAttrs := [''deps'', ''embed'', ''srcs''],
        MergeableAttrs := [''cgo'', ''clinkopts'', ''cppopts'', ''copts'', ''cxxopts'', ''embed'',
                           ''srcs''],
        ResolveAttrs := [''deps'']\<rparr>))"
    by (simp add: referencedAttrs_def policySets_def)
  from goKinds_mergeable_or_resolved mem ref show ?thesis
    by (auto simp: zeroKindInfo_def)
qed

section \<open>Ambiguous packages\<close>

lemma selectPackage_ambiguous:
  assumes "1 < length packageMap"
    and "list_all (\<lambda>(key, pkg). guessed_external_name pkg = [] \<or>
                                guessed_external_name pkg \<noteq> default_name rel) packageMap"
  shows "selectPackage dir rel packageMap = Inl (multiplePackagesError dir)"
proof -
  from assms(2) have "selectPackageLoop (default_name rel) packageMap = None"
    by (auto simp: selectPackageLoop_None list_all_iff goPackageName_spec)
  with assms(1) show ?thesis
    by (auto simp: selectPackage_def Replace_default_name)
qed

lemma HasPrefix_append: "HasPrefix (p @ s) p"
  by (simp add: HasPrefix_def)

text \<open>
  Claim C6. In single-canonical mode, when the files of the directory fall into more
  than one package and no package has a non-empty guessed external name equal to
  the default name, then, in whatever order the package map is visited: selection
  fails with the error whose message starts with the directory; \<open>GenerateRules\<close>
  logs that message and nothing else, generates no rule, and returns as empty rules
  exactly the output of the stale-rule detector.
\<close>

theorem GenerateRules_ambiguous:
  assumes "Mode (GetProtoConfig (Config args)) = DefaultMode"
    and "packageMap =
           partitionFiles w (newGenerator args) (GetProtoConfig (Config args)) (Dir args)"
    and "mset (rangeOrder w packageMap) = mset packageMap"
    and "1 < length packageMap"
    and "list_all (\<lambda>(key, pkg). guessed_external_name pkg = [] \<or>
                                guessed_external_name pkg \<noteq> default_name (Rel args)) packageMap"
  shows "selectPackage (Dir args) (Rel args) (rangeOrder w packageMap)
           = Inl (multiplePackagesError (Dir args)) \<and>
         HasPrefix (multiplePackagesError (Dir args)) (Dir args) \<and>
         GenerateRules w args
           = (generateEmpty (newGenerator args), [], [multiplePackagesError (Dir args)])"
proof -
  have len: "1 < length (rangeOrder w packageMap)"
    using assms(3,4) by (metis size_mset)
  have "set (rangeOrder w packageMap) = set packageMap"
    using assms(3) by (rule mset_eq_setD)
  with assms(5) have
    "list_all (\<lambda>(key, pkg). guessed_external_name pkg = [] \<or>
                            guessed_external_name pkg \<noteq> default_name (Rel args))
       (rangeOrder w packageMap)"
    by (simp add: list_all_iff)
  with len have sel: "selectPackage (Dir args) (Rel args) (rangeOrder w packageMap)
      = Inl (multiplePackagesError (Dir args))"
    by (rule selectPackage_ambiguous)
  have rel: "g_rel (newGenerator args) = Rel args"
    by (simp add: newGenerator_def Let_def)
  have "buildPackages w (newGenerator args) (GetProtoConfig (Config args)) (Dir args)
      = ([], [multiplePackagesError (Dir args)])"
    using assms(1) sel
    by (simp add: buildPackages_def Let_def rel assms(2) [symmetric])
  with assms(1) have "GenerateRules w args
      = (generateEmpty (newGenerator args), [], [multiplePackagesError (Dir args)])"
    by (simp add: GenerateRules_def Let_def ShouldGenerateRules_def)
  with sel show ?thesis
    by (simp add: multiplePackagesError_def HasPrefix_append)
qed

text \<open>
  Directory \<open>foo/bar\<close> with \<open>a.proto\<close> of package \<open>p1\<close> and \<open>b.proto\<close> of package \<open>p2\<close>,
  neither named \<open>foo_bar\<close>, and an existing rule \<open>old_proto\<close> whose only source is
  gone: the error is logged, no rule is generated, and the record for \<open>old_proto\<close> is
  returned.
\<close>

theorem GenerateRules_ambiguous_witness:
  "GenerateRules example_world
     (example_args
        (Some \<lparr>Rules = [example_rule ''old_proto'' [(''srcs'', StringList [''gone.proto''])]]\<rparr>)
        [''a.proto'', ''b.proto'', ''README.md''] [])
   = ([\<lparr>rule_kind = ''proto_library'', rule_name = ''old_proto'', rule_attrs = [],
        rule_private = []\<rparr>],
      [],
      [''/repo/foo/bar: directory contains multiple proto packages. Gazelle can only generate a proto_library for one package.''])"
proof -
  let ?args = "example_args
        (Some \<lparr>Rules = [example_rule ''old_proto'' [(''srcs'', StringList [''gone.proto''])]]\<rparr>)
        [''a.proto'', ''b.proto'', ''README.md''] []"
  let ?pm = "[(''p1'', \<lparr>Name = ''p1'', Files = [''a.proto''], Imports = [], Options = []\<rparr>),
              (''p2'', \<lparr>Name = ''p2'', Files = [''b.proto''], Imports = [], Options = []\<rparr>)]"
  have regular: "regularProtoFiles (newGenerator ?args) = [''a.proto'', ''b.proto'']"
    by (simp add: regularProtoFiles_newGenerator example_args_def HasSuffix_def)
  have pm: "?pm = partitionFiles example_world (newGenerator ?args)
                    (GetProtoConfig (Config ?args)) (Dir ?args)"
    unfolding partitionFiles_def regular
    by (simp add: addToPackageMap_def example_world_def example_args_def example_config_def
          GetProtoConfig_def newPackage_def addFile_def Let_def)
  have mode: "Mode (GetProtoConfig (Config ?args)) = DefaultMode"
    by (simp add: example_args_def example_config_def GetProtoConfig_def)
  have order: "mset (rangeOrder example_world ?pm) = mset ?pm"
    by (simp add: example_world_def)
  have names: "list_all (\<lambda>(key, pkg). guessed_external_name pkg = [] \<or>
                                guessed_external_name pkg \<noteq> default_name (Rel ?args)) ?pm"
    by (simp add: guessed_external_name_def default_name_def example_args_def)
  have stale: "generateEmpty (newGenerator ?args)
      = [\<lparr>rule_kind = ''proto_library'', rule_name = ''old_proto'', rule_attrs = [],
          rule_private = []\<rparr>]"
    by (simp add: generateEmpty_def generateEmptyLoop_def generateEmptyStep_def knownFiles_def
          newGenerator_def example_args_def example_rule_def example_config_def HasSuffix_def
          Attr_def AttrStrings_def newRule_def NewRule_def)
  from GenerateRules_ambiguous [OF mode pm order _ names] stale show ?thesis
    by (simp add: multiplePackagesError_def example_args_def)
qed

section \<open>Visibility\<close>

lemma path_segments_nonempty: "path_segments p \<noteq> []"
  by (induction p) (auto split: list.splits)

lemma path_segments_slash_free: "seg \<in> set (path_segments p) \<Longrightarrow> CHR ''/'' \<notin> set seg"
  by (induction p arbitrary: seg) (auto split: list.splits if_splits)

lemma slash_cat_path_segments: "slash_cat (path_segments p) = CHR ''/'' # p"
  by (induction p) (auto simp: slash_cat_def split: list.splits)

lemma slash_cat_join: "segs \<noteq> [] \<Longrightarrow> slash_cat segs = CHR ''/'' # join_segments segs"
  by (induction segs rule: join_segments.induct) (auto simp: slash_cat_def)

lemma slash_cat_append: "slash_cat (xs @ ys) = slash_cat xs @ slash_cat ys"
  by (simp add: slash_cat_def)

lemma HasPrefix_iff: "HasPrefix s p \<longleftrightarrow> (\<exists>z. s = p @ z)"
proof
  assume "HasPrefix s p"
  then have "s = p @ drop (length p) s"
    by (metis HasPrefix_def append_take_drop_id)
  then show "\<exists>z. s = p @ z" ..
next
  assume "\<exists>z. s = p @ z"
  then show "HasPrefix s p" by (auto simp: HasPrefix_def)
qed

lemma slash_split_unique:
  assumes "CHR ''/'' \<notin> set a" and "CHR ''/'' \<notin> set b"
    and "a @ CHR ''/'' # u = b @ CHR ''/'' # v"
  shows "a = b \<and> u = v"
proof -
  have "takeWhile (\<lambda>ch. ch \<noteq> CHR ''/'') (a @ CHR ''/'' # u) = a"
    using assms(1) by (auto simp: takeWhile_tail)
  moreover have "takeWhile (\<lambda>ch. ch \<noteq> CHR ''/'') (b @ CHR ''/'' # v) = b"
    using assms(2) by (auto simp: takeWhile_tail)
  ultimately have "a = b" using assms(3) by simp
  with assms(3) show ?thesis by simp
qed

lemma HasPrefix_internal_segment:
  assumes "CHR ''/'' \<notin> set s"
  shows "HasPrefix (CHR ''/'' # s @ CHR ''/'' # y) ''/internal/'' \<longleftrightarrow> s = ''internal''"
proof
  assume "HasPrefix (CHR ''/'' # s @ CHR ''/'' # y) ''/internal/''"
  then obtain z where "CHR ''/'' # s @ CHR ''/'' # y = ''/internal/'' @ z"
    by (auto simp: HasPrefix_iff)
  then have "s @ CHR ''/'' # y = ''internal'' @ CHR ''/'' # z" by simp
  with assms show "s = ''internal''"
    using slash_split_unique [of s "''internal''" y z] by simp
next
  assume "s = ''internal''"
  then show "HasPrefix (CHR ''/'' # s @ CHR ''/'' # y) ''/internal/''"
    by (simp add: HasPrefix_def)
qed

lemma HasPrefix_internal_last:
  assumes "CHR ''/'' \<notin> set s"
  shows "\<not> HasPrefix (CHR ''/'' # s) ''/internal/''"
proof
  assume "HasPrefix (CHR ''/'' # s) ''/internal/''"
  then obtain z where "CHR ''/'' # s = ''/internal/'' @ z"
    by (auto simp: HasPrefix_iff)
  then have "s = ''internal/'' @ z" by simp
  with assms show False by simp
qed

lemma LastIndex_slash_free:
  assumes "CHR ''/'' \<notin> set s"
  shows "LastIndex (s @ x) ''/internal/'' = map_option (\<lambda>i. length s + i) (LastIndex x ''/internal/'')"
  using assms
proof (induction s)
  case Nil
  show ?case by (simp add: option.map_ident)
next
  case (Cons ch s)
  then have "\<not> HasPrefix (ch # s @ x) ''/internal/''"
    by (auto simp: HasPrefix_def)
  with Cons show ?case
    by (cases "LastIndex x ''/internal/''") simp_all
qed

lemma last_index_of_less: "last_index_of a xs = Some k \<Longrightarrow> k < length xs"
  by (induction xs arbitrary: k) (auto split: option.splits if_splits)

lemma slash_cat_Nil: "slash_cat [] = []"
  by (simp add: slash_cat_def)

lemma slash_cat_Cons: "slash_cat (seg # segs) = CHR ''/'' # seg @ slash_cat segs"
  by (simp add: slash_cat_def)

lemma LastIndex_slash_cat:
  assumes "\<forall>seg \<in> set segs. CHR ''/'' \<notin> set seg"
  shows "LastIndex (slash_cat segs) ''/internal/'' =
           map_option (\<lambda>k. length (slash_cat (take k segs)))
             (last_index_of ''internal'' (butlast segs))"
  using assms
proof (induction segs)
  case Nil
  show ?case by (simp add: slash_cat_def)
next
  case (Cons seg segs)
  then have free: "CHR ''/'' \<notin> set seg" by simp
  have cat: "slash_cat (seg # segs) = CHR ''/'' # seg @ slash_cat segs"
    by (simp add: slash_cat_def)
  have rest: "LastIndex (seg @ slash_cat segs) ''/internal/'' =
      map_option (\<lambda>k. length seg + length (slash_cat (take k segs)))
        (last_index_of ''internal'' (butlast segs))"
    using Cons by (simp add: LastIndex_slash_free [OF free] option.map_comp comp_def)
  show ?case
  proof (cases segs)
    case Nil
    with free rest show ?thesis
      using HasPrefix_internal_last [OF free] by (simp add: cat slash_cat_def)
  next
    case (Cons seg' segs')
    then have "slash_cat segs = CHR ''/'' # seg' @ slash_cat segs'"
      by (simp add: slash_cat_def)
    then have first: "HasPrefix (CHR ''/'' # seg @ slash_cat segs) ''/internal/'' \<longleftrightarrow> seg = ''internal''"
      using HasPrefix_internal_segment [OF free] by simp
    from Cons have bl: "butlast (seg # segs) = seg # butlast segs" by simp
    show ?thesis
      unfolding cat bl
      by (cases "last_index_of ''internal'' (butlast segs)")
         (simp_all add: rest first slash_cat_Nil slash_cat_Cons)
  qed
qed

lemma HasPrefix_Cons: "HasPrefix (ch # s) (ch # p) \<longleftrightarrow> HasPrefix s p"
  by (auto simp: HasPrefix_def)

lemma checkInternalVisibility_LastIndex:
  "checkInternalVisibility p vis =
     (case LastIndex (CHR ''/'' # p) ''/internal/'' of
        None \<Rightarrow> vis
      | Some j \<Rightarrow> ''//'' @ take (j - 1) p @ '':__subpackages__'')"
proof -
  have "HasPrefix (CHR ''/'' # p) ''/internal/'' \<longleftrightarrow> HasPrefix p ''internal/''"
    by (rule HasPrefix_Cons)
  then show ?thesis
    by (cases "LastIndex p ''/internal/''") (simp_all add: checkInternalVisibility_def)
qed

lemma take_join_segments:
  assumes "k < length segs"
  shows "take (length (slash_cat (take k segs)) - 1) (join_segments segs) = join_segments (take k segs)"
proof (cases k)
  case 0
  then show ?thesis by (simp add: slash_cat_def)
next
  case (Suc k')
  with assms have ne: "take k segs \<noteq> []" "segs \<noteq> []" by auto
  have "slash_cat segs = slash_cat (take k segs) @ slash_cat (drop k segs)"
    by (metis append_take_drop_id slash_cat_append)
  then have "CHR ''/'' # join_segments segs
      = CHR ''/'' # join_segments (take k segs) @ slash_cat (drop k segs)"
    using ne by (simp add: slash_cat_join)
  then have "join_segments segs = join_segments (take k segs) @ slash_cat (drop k segs)"
    by simp
  moreover have "length (slash_cat (take k segs)) - 1 = length (join_segments (take k segs))"
    using ne by (simp add: slash_cat_join)
  ultimately show ?thesis by simp
qed

lemma join_path_segments: "join_segments (path_segments p) = p"
  using slash_cat_join [OF path_segments_nonempty, of p] by (simp add: slash_cat_path_segments)

lemma checkInternalVisibility_segments:
  "checkInternalVisibility p ''//visibility:public'' = visibility_by_segments p"
proof (cases "last_index_of ''internal'' (butlast (path_segments p))")
  case None
  then have "LastIndex (CHR ''/'' # p) ''/internal/'' = None"
    using LastIndex_slash_cat [of "path_segments p"] path_segments_slash_free [of _ p]
    by (simp add: slash_cat_path_segments)
  with None show ?thesis
    by (simp add: checkInternalVisibility_LastIndex visibility_by_segments_def)
next
  case (Some k)
  then have "k < length (butlast (path_segments p))" by (rule last_index_of_less)
  then have k: "k < length (path_segments p)" by simp
  from Some have "LastIndex (CHR ''/'' # p) ''/internal/''
      = Some (length (slash_cat (take k (path_segments p))))"
    using LastIndex_slash_cat [of "path_segments p"] path_segments_slash_free [of _ p]
    by (simp add: slash_cat_path_segments)
  moreover have "take (length (slash_cat (take k (path_segments p))) - 1) p
      = join_segments (take k (path_segments p))"
    using take_join_segments [OF k] by (simp add: join_path_segments)
  ultimately show ?thesis
    using Some by (simp add: checkInternalVisibility_LastIndex visibility_by_segments_def)
qed

text \<open>
  Claim C4, as stated, fails for a path whose last segment is \<open>internal\<close>: the path
  \<open>a/internal\<close> has a segment \<open>internal\<close>, and the visibility set for it is
  \<open>//visibility:public\<close>. Both tests of \<open>checkInternalVisibility\<close> ask for a \<open>/\<close> after
  \<open>internal\<close>.
\<close>

theorem generateProto_visibility_counterexample:
  "''internal'' \<in> set (path_segments ''a/internal'') \<and>
   shouldSetVisibility ((example_generator [] [])\<lparr>g_rel := ''a/internal''\<rparr>) \<and>
   Attr (generateProto ((example_generator [] [])\<lparr>g_rel := ''a/internal''\<rparr>)
           (ProtoExt example_config) example_p1) ''visibility''
     = Some (StringList [''//visibility:public''])"
  by (simp add: generateProto_def Let_def Attr_def map_of_SetAttr example_generator_def
        checkInternalVisibility_def HasPrefix_def)

text \<open>
  Claim C4, amended. When the generator sets the visibility, its value is decided by
  the segments of the relative path other than the last: it is \<open>//visibility:public\<close>
  when none of them is \<open>internal\<close>, so for every path with no segment \<open>internal\<close>;
  otherwise it is \<open>//prefix:__subpackages__\<close>, where \<open>prefix\<close> is the path up to the
  segment before the last of them that is \<open>internal\<close>, and \<open>//:__subpackages__\<close> when
  that one is the first segment.
\<close>

theorem generateProto_visibility:
  assumes "shouldSetVisibility g"
  shows "Attr (generateProto g pc pkg) ''visibility''
           = Some (StringList [visibility_by_segments (g_rel g)])"
  using assms
  by (simp add: generateProto_def Let_def Attr_def map_of_SetAttr
        checkInternalVisibility_segments)

theorem generateProto_visibility_witness:
  "Attr (generateProto ((example_generator [] [])\<lparr>g_rel := ''a/b/internal/c''\<rparr>)
           (ProtoExt example_config) example_p1) ''visibility''
     = Some (StringList [''//a/b:__subpackages__'']) \<and>
   Attr (generateProto ((example_generator [] [])\<lparr>g_rel := ''internal/x''\<rparr>)
           (ProtoExt example_config) example_p1) ''visibility''
     = Some (StringList [''//:__subpackages__'']) \<and>
   Attr (generateProto ((example_generator [] [])\<lparr>g_rel := ''foo/bar''\<rparr>)
           (ProtoExt example_config) example_p1) ''visibility''
     = Some (StringList [''//visibility:public'']) \<and>
   Attr (generateProto ((example_generator [] [])\<lparr>g_rel := ''a/internal/b/internal/c''\<rparr>)
           (ProtoExt example_config) example_p1) ''visibility''
     = Some (StringList [''//a/internal/b:__subpackages__''])"
  using generateProto_visibility
          [of "(example_generator [] [])\<lparr>g_rel := ''a/b/internal/c''\<rparr>"
              "ProtoExt example_config" example_p1]
        generateProto_visibility
          [of "(example_generator [] [])\<lparr>g_rel := ''internal/x''\<rparr>"
              "ProtoExt example_config" example_p1]
        generateProto_visibility
          [of "(example_generator [] [])\<lparr>g_rel := ''foo/bar''\<rparr>"
              "ProtoExt example_config" example_p1]
        generateProto_visibility
          [of "(example_generator [] [])\<lparr>g_rel := ''a/internal/b/internal/c''\<rparr>"
              "ProtoExt example_config" example_p1]
  by (simp add: example_generator_def visibility_by_segments_def)

section \<open>The scan of the candidates\<close>

text \<open>
  On candidates of ASCII bytes a rune is a byte, and \<open>RuleName\<close> is the name of the
  specification.
\<close>

lemma notIdent_byte: "notIdent (byte ch) \<longleftrightarrow> \<not> ident_char ch"
proof -
  have "(95::nat) = of_char (CHR ''_'')"
    by simp
  then have "(of_char ch :: nat) = 95 \<longleftrightarrow> ch = CHR ''_''"
    by (simp only: of_char_eq_iff)
  then show ?thesis
    by (simp add: notIdent_def ident_char_def byte_def less_eq_char_def)
qed

lemma DecodeLastRuneInString_ascii:
  "byte ch < 0x80 \<Longrightarrow> DecodeLastRuneInString (s @ [ch]) = (byte ch, 1)"
  by (simp add: DecodeLastRuneInString_def RuneSelf_def)

lemma LastIndexFunc_ascii:
  assumes "byte ch < 0x80"
  shows "LastIndexFunc (s @ [ch]) f = (if f (byte ch) then Some (length s) else LastIndexFunc s f)"
  by (subst LastIndexFunc.simps) (simp add: DecodeLastRuneInString_ascii [OF assms])

lemma LastIndexFunc_Nil: "LastIndexFunc [] f = None"
  by (subst LastIndexFunc.simps) simp

lemma trim_ascii:
  assumes "\<forall>ch \<in> set s. byte ch < 0x80"
  shows "(LastIndexFunc s notIdent = None \<and> ident_suffix s = s) \<or>
         (\<exists>i < length s. LastIndexFunc s notIdent = Some i \<and> ident_suffix s = drop (i + 1) s)"
  using assms
proof (induction s rule: rev_induct)
  case Nil
  show ?case by (simp add: LastIndexFunc_Nil ident_suffix_def)
next
  case (snoc ch s)
  then have ascii: "byte ch < 0x80" by simp
  show ?case
  proof (cases "ident_char ch")
    case False
    then show ?thesis
      by (simp add: LastIndexFunc_ascii [OF ascii] notIdent_byte ident_suffix_def)
  next
    case True
    then have suffix: "ident_suffix (s @ [ch]) = ident_suffix s @ [ch]"
      by (simp add: ident_suffix_def)
    from snoc have "(LastIndexFunc s notIdent = None \<and> ident_suffix s = s) \<or>
         (\<exists>i < length s. LastIndexFunc s notIdent = Some i \<and> ident_suffix s = drop (i + 1) s)"
      by simp
    with True suffix show ?thesis
      by (auto simp: LastIndexFunc_ascii [OF ascii] notIdent_byte)
  qed
qed

lemma trim_ascii_eq:
  assumes "\<forall>ch \<in> set s. byte ch < 0x80"
  shows "(case LastIndexFunc s notIdent of Some i \<Rightarrow> drop (i + 1) s | None \<Rightarrow> s) = ident_suffix s"
  using trim_ascii [OF assms] by auto

lemma RuleNameLoop_ascii:
  assumes "\<forall>name \<in> set names. \<forall>ch \<in> set name. byte ch < 0x80"
  shows "RuleNameLoop base names =
           (case filter (\<lambda>t. t \<noteq> []) (map ident_suffix names) of [] \<Rightarrow> base | t # _ \<Rightarrow> t)"
  using assms
  by (induction names) (simp_all add: trim_ascii_eq Let_def)

lemma RuleName_ascii:
  assumes "\<forall>name \<in> set names. \<forall>ch \<in> set name. byte ch < 0x80"
  shows "RuleName names = rule_name_spec names"
  by (simp add: RuleName_def rule_name_spec_def RuleNameLoop_ascii [OF assms])

lemma RuleName_scenario: "RuleName ['''', ''my/pkg.ext'', ''''] = ''ext_proto''"
proof -
  have "rule_name_spec ['''', ''my/pkg.ext'', ''''] = ''ext_proto''"
    by (simp add: rule_name_spec_def ident_suffix_def ident_char_def less_eq_char_def)
  moreover have "\<forall>name \<in> set ['''', ''my/pkg.ext'', '''']. \<forall>ch \<in> set name. byte ch < 0x80"
    by (simp add: byte_def)
  ultimately show ?thesis by (simp only: RuleName_ascii)
qed

text \<open>
  Claim C2 says that each candidate is trimmed to what follows its last character that
  is not a letter, a digit or an underscore. \<open>strings.LastIndexFunc\<close> returns the
  index of the first byte of that character and \<open>RuleName\<close> cuts one byte after it,
  so that for a character of several bytes the bytes after the first are kept. The
  candidate \<open>caf\<close> followed by the two bytes \<open>C3 A9\<close> of the letter e with an acute
  accent ends in a character that is not an identifier character: its trimmed form
  is empty and the name of the specification is \<open>root_proto\<close>, while \<open>RuleName\<close>
  returns the byte \<open>A9\<close> followed by \<open>_proto\<close>, which is not a suffix of identifier
  characters.
\<close>

theorem RuleName_multibyte_example:
  "RuleName [''caf'' @ [CHR 0xC3, CHR 0xA9]] = CHR 0xA9 # ''_proto'' \<and>
   rule_name_spec [''caf'' @ [CHR 0xC3, CHR 0xA9]] = ''root_proto'' \<and>
   \<not> ident_char (CHR 0xA9)"
  by code_simp


end
